theory Spec2Isabelle
  imports Complex_Main
begin

section \<open>JavaScript values and objects\<close>

text \<open>
  The service (\<^verbatim>\<open>src/index.js\<close>) keeps two module-level variables, the array
  \<^verbatim>\<open>cities\<close> and the counter \<^verbatim>\<open>nextId\<close>, and five route handlers that read or
  mutate them. Request bodies are what \<^verbatim>\<open>express.json()\<close> hands to the handler: a parsed
  JSON value (or nothing at all). The values of the model are the JSON values plus
  \<^verbatim>\<open>undefined\<close>, which is what reading an absent property gives.

  A number of a body is the double that \<^verbatim>\<open>JSON.parse\<close> made of the literal: a rational
  \<open>Num q\<close>, or \<open>Infinity True\<close> and \<open>Infinity False\<close> for \<^verbatim>\<open>Infinity\<close> and
  \<^verbatim>\<open>-Infinity\<close>, which a literal beyond the range of the doubles parses to. The numbers
  the service computes itself, the counter and the result of \<^verbatim>\<open>parseInt\<close>, are integers
  rounded to the nearest double (\<open>round_to_double\<close> below). An object is the list of its
  own properties;
  \<open>set_prop\<close> overwrites the value of an existing key in place and appends a new key,
  so the lists built by the handlers never hold a key twice. JavaScript enumerates
  integer-like keys before the others; the position of a key in the list plays no part in
  any statement below, which all read properties by key.
\<close>

datatype jsval =
    Undefined
  | Null
  | Bool bool
  | Num rat
  | Infinity bool
  | Str string
  | Arr "jsval list"
  | Obj "(string \<times> jsval) list"

type_synonym obj = "(string \<times> jsval) list"

fun set_prop :: "string \<Rightarrow> jsval \<Rightarrow> obj \<Rightarrow> obj" where
  "set_prop k v [] = [(k, v)]"
| "set_prop k v ((k', v') # ps) =
     (if k' = k then (k, v) # ps else (k', v') # set_prop k v ps)"

definition get_prop :: "obj \<Rightarrow> string \<Rightarrow> jsval" where
  \<comment> \<open>\<^verbatim>\<open>o.k\<close>: the value of the property, \<^verbatim>\<open>undefined\<close> when the object has none.\<close>
  "get_prop ob k = (case map_of ob k of Some v \<Rightarrow> v | None \<Rightarrow> Undefined)"

subsection \<open>Decimal rendering of array indices\<close>

definition digit_char :: "nat \<Rightarrow> char" where
  "digit_char d = char_of (48 + d)"

function show_nat :: "nat \<Rightarrow> string" where
  "show_nat n = (if n < 10 then [digit_char n] else show_nat (n div 10) @ [digit_char (n mod 10)])"
  by pat_completeness auto
termination
  by (relation "measure id") auto

declare show_nat.simps [simp del]

subsection \<open>Object spread\<close>

text \<open>
  \<^verbatim>\<open>{ id: e, ...req.body }\<close> first defines \<^verbatim>\<open>id\<close> and then copies every own enumerable
  property of the body, in order, with the object's ordinary property definition: a key
  of the body that is already there (\<^verbatim>\<open>id\<close>) has its value overwritten. Spreading an
  array or a string copies its elements under their indices; spreading anything else
  copies nothing.
\<close>

fun own_props :: "jsval \<Rightarrow> obj" where
  "own_props (Obj ps) = ps"
| "own_props (Arr xs) = zip (map show_nat [0..<length xs]) xs"
| "own_props (Str s) = zip (map show_nat [0..<length s]) (map (\<lambda>c. Str [c]) s)"
| "own_props _ = []"

definition spread :: "jsval \<Rightarrow> obj \<Rightarrow> obj" where
  "spread src tgt = fold (\<lambda>(k, v). set_prop k v) (own_props src) tgt"

section \<open>Integers as doubles\<close>

text \<open>
  A JavaScript number is an IEEE double. An integer of at most 53 bits is a double; a
  longer one is rounded to 53 significant bits, to the nearest double with a tie going to
  the even one: \<open>2^53 + 1\<close> becomes \<open>2^53\<close>. \<open>bit_count m\<close> is the number of binary
  digits of \<open>m\<close>.
\<close>

function bit_count :: "int \<Rightarrow> nat" where
  "bit_count m = (if m \<le> 0 then 0 else Suc (bit_count (m div 2)))"
  by pat_completeness auto
termination
  by (relation "measure nat") auto

declare bit_count.simps [simp del]

definition round_to_double :: "int \<Rightarrow> int" where
  "round_to_double x =
     (if \<bar>x\<bar> < 2 ^ 53 then x
      else
        (let m = \<bar>x\<bar>;
             e = bit_count m - 53;
             q = m div 2 ^ e;
             r = m mod 2 ^ e;
             h = 2 ^ (e - 1);
             q' = (if h < r \<or> (r = h \<and> odd q) then q + 1 else q)
         in sgn x * (q' * 2 ^ e)))"

datatype number = NaN | Finite int | Infinite bool

definition to_number :: "int \<Rightarrow> number" where
  \<comment> \<open>The number value of an integer: beyond the largest double it is an infinity.\<close>
  "to_number x =
     (let r = round_to_double x
      in if 2 ^ 1024 \<le> r then Infinite True
         else if r \<le> - (2 ^ 1024) then Infinite False
         else Finite r)"

section \<open>\<^verbatim>\<open>parseInt\<close> with one argument\<close>

text \<open>
  The handlers call \<^verbatim>\<open>parseInt(req.params.id)\<close>. The function follows ECMAScript's
  \<^verbatim>\<open>parseInt(string)\<close> with the radix left out: leading white space is dropped, one sign is
  read, a \<^verbatim>\<open>0x\<close> or \<^verbatim>\<open>0X\<close> prefix selects radix 16 (radix 10 otherwise), and the longest
  run of digits of that radix is the number, as a double; with no digit the result is
  \<^verbatim>\<open>NaN\<close>. The value of a long run of digits is taken exactly before it is rounded, as
  Node's engine does (ECMAScript lets an implementation approximate past the 20th decimal
  digit). Characters are the code units below 256.
\<close>

definition is_white :: "char \<Rightarrow> bool" where
  \<comment> \<open>TAB, LF, VT, FF, CR, SP and NBSP.\<close>
  "is_white c = ((of_char c :: int) \<in> set [9, 10, 11, 12, 13, 32, 160])"

definition digit_val :: "char \<Rightarrow> int option" where
  \<comment> \<open>The value of a digit or letter as a digit of a radix up to 36.\<close>
  "digit_val c =
     (let n = (of_char c :: int) in
      if 48 \<le> n \<and> n \<le> 57 then Some (n - 48)
      else if 97 \<le> n \<and> n \<le> 122 then Some (n - 87)
      else if 65 \<le> n \<and> n \<le> 90 then Some (n - 55)
      else None)"

definition is_radix_digit :: "int \<Rightarrow> char \<Rightarrow> bool" where
  "is_radix_digit R c = (case digit_val c of Some d \<Rightarrow> d < R | None \<Rightarrow> False)"

definition math_int :: "int \<Rightarrow> string \<Rightarrow> int" where
  "math_int R Z = foldl (\<lambda>a c. a * R + (case digit_val c of Some d \<Rightarrow> d | None \<Rightarrow> 0)) 0 Z"

fun strip_sign :: "string \<Rightarrow> int \<times> string" where
  "strip_sign [] = (1, [])"
| "strip_sign (c # cs) =
     (if c = CHR ''-'' then (- 1, cs) else if c = CHR ''+'' then (1, cs) else (1, c # cs))"

fun strip_prefix :: "string \<Rightarrow> int \<times> string" where
  "strip_prefix (a # b # cs) =
     (if a = CHR ''0'' \<and> (b = CHR ''x'' \<or> b = CHR ''X'') then (16, cs) else (10, a # b # cs))"
| "strip_prefix cs = (10, cs)"

definition parseInt :: "string \<Rightarrow> number" where
  "parseInt inputString =
     (let (sign, S) = strip_sign (dropWhile is_white inputString);
          (R, S') = strip_prefix S;
          Z = takeWhile (is_radix_digit R) S'
      in if Z = [] then NaN else to_number (sign * math_int R Z))"

section \<open>The store and the route handlers\<close>

text \<open>
  The counter \<^verbatim>\<open>nextId\<close> is a number whose value is an integer: it starts at 3 and
  \<^verbatim>\<open>nextId++\<close> adds one in double arithmetic.
\<close>

record store =
  cities :: "obj list"
  nextId :: int

definition init_store :: store where
  "init_store = \<lparr>cities = [], nextId = 3\<rparr>"

datatype response = Response (status: nat) (body: "jsval option")

definition not_found :: response where
  "not_found = Response 404 (Some (Obj [(''message'', Str ''City not found'')]))"

definition id_is :: "number \<Rightarrow> obj \<Rightarrow> bool" where
  \<comment> \<open>\<^verbatim>\<open>c.id === parseInt(req.params.id)\<close>: strict equality, false on \<^verbatim>\<open>NaN\<close>.\<close>
  "id_is n c =
     (case n of
        NaN \<Rightarrow> False
      | Finite m \<Rightarrow> (case get_prop c ''id'' of Num q \<Rightarrow> q = of_int m | _ \<Rightarrow> False)
      | Infinite s \<Rightarrow> (case get_prop c ''id'' of Infinity s' \<Rightarrow> s' = s | _ \<Rightarrow> False))"

fun findIndex :: "('a \<Rightarrow> bool) \<Rightarrow> 'a list \<Rightarrow> nat option" where
  "findIndex P [] = None"
| "findIndex P (x # xs) = (if P x then Some 0 else map_option Suc (findIndex P xs))"

definition splice1 :: "nat \<Rightarrow> 'a list \<Rightarrow> 'a list" where
  \<comment> \<open>\<^verbatim>\<open>xs.splice(index, 1)\<close>, the array that is left.\<close>
  "splice1 index xs = take index xs @ drop (index + 1) xs"

definition get_cities :: "store \<Rightarrow> response \<times> store" where
  "get_cities st = (Response 200 (Some (Arr (map Obj (cities st)))), st)"

definition get_city :: "string \<Rightarrow> store \<Rightarrow> response \<times> store" where
  "get_city ident st =
     (case find (id_is (parseInt ident)) (cities st) of
        Some city \<Rightarrow> (Response 200 (Some (Obj city)), st)
      | None \<Rightarrow> (not_found, st))"

definition post_city :: "jsval \<Rightarrow> store \<Rightarrow> response \<times> store" where
  "post_city reqbody st =
     (let newCity = spread reqbody [(''id'', Num (of_int (nextId st)))]
      in (Response 201 (Some (Obj newCity)),
          \<lparr>cities = cities st @ [newCity], nextId = round_to_double (nextId st + 1)\<rparr>))"

definition put_city :: "string \<Rightarrow> jsval \<Rightarrow> store \<Rightarrow> response \<times> store" where
  "put_city ident reqbody st =
     (case findIndex (id_is (parseInt ident)) (cities st) of
        Some index \<Rightarrow>
          (let cs = (cities st)[index := spread reqbody [(''id'', get_prop (cities st ! index) ''id'')]]
           in (Response 200 (Some (Obj (cs ! index))), st\<lparr>cities := cs\<rparr>))
      | None \<Rightarrow> (not_found, st))"

definition delete_city :: "string \<Rightarrow> store \<Rightarrow> response \<times> store" where
  "delete_city ident st =
     (case findIndex (id_is (parseInt ident)) (cities st) of
        Some index \<Rightarrow> (Response 204 None, st\<lparr>cities := splice1 index (cities st)\<rparr>)
      | None \<Rightarrow> (not_found, st))"

subsection \<open>Sequences of requests\<close>

datatype request =
    GetCities
  | GetCity string
  | PostCity jsval
  | PutCity string jsval
  | DeleteCity string

fun handle :: "request \<Rightarrow> store \<Rightarrow> response \<times> store" where
  "handle GetCities st = get_cities st"
| "handle (GetCity ident) st = get_city ident st"
| "handle (PostCity reqbody) st = post_city reqbody st"
| "handle (PutCity ident reqbody) st = put_city ident reqbody st"
| "handle (DeleteCity ident) st = delete_city ident st"

fun run :: "request list \<Rightarrow> store \<Rightarrow> store" where
  "run [] st = st"
| "run (r # rs) st = run rs (snd (handle r st))"




fun is_creation :: "request \<Rightarrow> bool" where
  "is_creation (PostCity reqbody) = True"
| "is_creation r = False"

definition creations :: "request list \<Rightarrow> nat" where
  "creations rs = length (filter is_creation rs)"

subsection \<open>Bodies without an \<^verbatim>\<open>id\<close> field, and the stores they lead to\<close>

text \<open>
  A body is plain when its own property list names each key once and has no \<^verbatim>\<open>id\<close>
  key. A store has server ids when the \<^verbatim>\<open>id\<close> of every record is an integer below the
  counter and no two records have the same \<^verbatim>\<open>id\<close>.
\<close>

definition plain_body :: "jsval \<Rightarrow> bool" where
  "plain_body b = (distinct (map fst (own_props b)) \<and> ''id'' \<notin> set (map fst (own_props b)))"


fun plain_request :: "request \<Rightarrow> bool" where
  "plain_request (PostCity reqbody) = plain_body reqbody"
| "plain_request (PutCity ident reqbody) = plain_body reqbody"
| "plain_request r = True"

definition below_counter :: "int \<Rightarrow> obj \<Rightarrow> bool" where
  "below_counter n c =
     (case get_prop c ''id'' of Num q \<Rightarrow> of_int \<lfloor>q\<rfloor> = q \<and> q < of_int n | _ \<Rightarrow> False)"

definition server_ids :: "store \<Rightarrow> bool" where
  "server_ids st =
     (distinct (map (\<lambda>c. get_prop c ''id'') (cities st)) \<and> list_all (below_counter (nextId st)) (cities st))"

section \<open>Array search and removal\<close>

lemma findIndex_None_iff: "findIndex P xs = None \<longleftrightarrow> (\<forall>x\<in>set xs. \<not> P x)"
  by (induction xs) auto

lemma findIndex_SomeD:
  "findIndex P xs = Some i \<Longrightarrow> i < length xs \<and> P (xs ! i) \<and> (\<forall>x\<in>set (take i xs). \<not> P x)"
proof (induction xs arbitrary: i)
  case Nil
  then show ?case by simp
next
  case (Cons x xs)
  show ?case
  proof (cases "P x")
    case True
    with Cons.prems show ?thesis by simp
  next
    case False
    with Cons.prems obtain j where j: "findIndex P xs = Some j" "i = Suc j"
      by auto
    from Cons.IH [OF j(1)] False j(2) show ?thesis by simp
  qed
qed

lemma findIndex_Some_ex: "x \<in> set xs \<Longrightarrow> P x \<Longrightarrow> \<exists>i. findIndex P xs = Some i"
  using findIndex_None_iff [of P xs] by (cases "findIndex P xs") auto

lemma splice1_split:
  "i < length xs \<Longrightarrow> xs = take i xs @ xs ! i # drop (Suc i) xs \<and> splice1 i xs = take i xs @ drop (Suc i) xs"
  using id_take_nth_drop [of i xs] by (simp add: splice1_def)

section \<open>Requests for an id that matches no record\<close>

text \<open>
  Claim C7. When no stored record's \<^verbatim>\<open>id\<close> is strictly equal to the parsed path
  segment, each of GET, PUT and DELETE on \<^verbatim>\<open>/cities/{id}\<close> answers 404 with the body
  \<^verbatim>\<open>{"message":"City not found"}\<close> and returns the store as it was.
\<close>

theorem not_found_consistency:
  assumes "\<forall>c\<in>set (cities st). \<not> id_is (parseInt ident) c"
  shows "get_city ident st = (Response 404 (Some (Obj [(''message'', Str ''City not found'')])), st)
       \<and> put_city ident reqbody st = (Response 404 (Some (Obj [(''message'', Str ''City not found'')])), st)
       \<and> delete_city ident st = (Response 404 (Some (Obj [(''message'', Str ''City not found'')])), st)"
proof -
  from assms have "find (id_is (parseInt ident)) (cities st) = None"
    by (simp add: find_None_iff)
  moreover from assms have "findIndex (id_is (parseInt ident)) (cities st) = None"
    by (simp add: findIndex_None_iff)
  ultimately show ?thesis
    by (simp add: get_city_def put_city_def delete_city_def not_found_def)
qed

theorem not_found_consistency_witness:
  "get_city ''999999'' \<lparr>cities = [[(''id'', Num 3), (''name'', Str ''Addis Ababa'')]], nextId = 4\<rparr>
     = (Response 404 (Some (Obj [(''message'', Str ''City not found'')])),
        \<lparr>cities = [[(''id'', Num 3), (''name'', Str ''Addis Ababa'')]], nextId = 4\<rparr>)
   \<and> put_city ''999999'' (Obj [(''name'', Str ''Adama'')])
        \<lparr>cities = [[(''id'', Num 3), (''name'', Str ''Addis Ababa'')]], nextId = 4\<rparr>
     = (Response 404 (Some (Obj [(''message'', Str ''City not found'')])),
        \<lparr>cities = [[(''id'', Num 3), (''name'', Str ''Addis Ababa'')]], nextId = 4\<rparr>)
   \<and> delete_city ''999999'' \<lparr>cities = [[(''id'', Num 3), (''name'', Str ''Addis Ababa'')]], nextId = 4\<rparr>
     = (Response 404 (Some (Obj [(''message'', Str ''City not found'')])),
        \<lparr>cities = [[(''id'', Num 3), (''name'', Str ''Addis Ababa'')]], nextId = 4\<rparr>)"
proof -
  have h: "\<forall>c\<in>set (cities \<lparr>cities = [[(''id'', Num 3), (''name'', Str ''Addis Ababa'')]], nextId = 4\<rparr>).
      \<not> id_is (parseInt ''999999'') c"
    by code_simp
  show ?thesis by (rule not_found_consistency [OF h])
qed

text \<open>
  A segment beyond \<open>2^53\<close> is compared as the double it rounds to: the segment
  \<^verbatim>\<open>9007199254740993\<close> matches the record whose id is 9007199254740992.
\<close>

lemma long_segment_rounds:
  "delete_city ''9007199254740993'' \<lparr>cities = [[(''id'', Num 9007199254740992)]], nextId = 4\<rparr>
     = (Response 204 None, \<lparr>cities = [], nextId = 4\<rparr>)"
  by code_simp

section \<open>Properties of objects\<close>

lemma map_of_set_prop: "map_of (set_prop k v ps) = (map_of ps)(k \<mapsto> v)"
  by (induction ps) auto

lemma map_of_fold_set_prop:
  "map_of (fold (\<lambda>(k, v). set_prop k v) qs ps) = map_of ps ++ map_of (rev qs)"
proof (induction qs arbitrary: ps)
  case Nil
  show ?case by simp
next
  case (Cons q qs)
  obtain k v where q: "q = (k, v)" by (cases q)
  show ?case
    by (rule ext) (simp add: q Cons.IH map_of_set_prop map_add_def split: option.split)
qed

lemma map_of_rev_distinct: "distinct (map fst qs) \<Longrightarrow> map_of (rev qs) = map_of qs"
  by (rule map_of_inject_set [THEN iffD2]) (simp_all add: rev_map [symmetric])

lemma map_of_spread:
  "distinct (map fst (own_props src)) \<Longrightarrow>
     map_of (spread src tgt) = map_of tgt ++ map_of (own_props src)"
  by (simp add: spread_def map_of_fold_set_prop map_of_rev_distinct)

lemma spread_id_field:
  assumes "distinct (map fst (own_props src))"
  shows "map_of (spread src [(''id'', v)]) =
     (case map_of (own_props src) ''id'' of
        None \<Rightarrow> (map_of (own_props src))(''id'' \<mapsto> v)
      | Some w \<Rightarrow> map_of (own_props src))"
  by (auto simp: map_of_spread [OF assms] map_add_def fun_eq_iff split: option.splits)

lemma plain_spread:
  assumes "plain_body b"
  shows "map_of (spread b [(''id'', v)]) = (map_of (own_props b))(''id'' \<mapsto> v)"
proof -
  from assms have d: "distinct (map fst (own_props b))" and n: "map_of (own_props b) ''id'' = None"
    by (simp_all add: plain_body_def map_of_eq_None_iff)
  show ?thesis by (simp add: spread_id_field [OF d] n)
qed

lemma plain_spread_id: "plain_body b \<Longrightarrow> get_prop (spread b [(''id'', v)]) ''id'' = v"
  by (simp add: get_prop_def plain_spread)

section \<open>The id counter\<close>

lemma round_to_double_exact: "\<bar>x\<bar> \<le> 2 ^ 53 \<Longrightarrow> round_to_double x = x"
proof -
  assume a: "\<bar>x\<bar> \<le> 2 ^ 53"
  have p: "round_to_double (2 ^ 53) = 2 ^ 53" by code_simp
  have n: "round_to_double (- (2 ^ 53)) = - (2 ^ 53)" by code_simp
  from a consider "\<bar>x\<bar> < 2 ^ 53" | "x = 2 ^ 53" | "x = - (2 ^ 53)" by linarith
  then show ?thesis
  proof cases
    case 1
    then show ?thesis by (simp add: round_to_double_def)
  next
    case 2
    with p show ?thesis by simp
  next
    case 3
    with n show ?thesis by simp
  qed
qed


lemma nextId_post: "nextId (snd (post_city reqbody st)) = round_to_double (nextId st + 1)"
  by (simp add: post_city_def Let_def)

lemma nextId_other: "\<not> is_creation r \<Longrightarrow> nextId (snd (handle r st)) = nextId st"
  by (cases r)
    (simp_all add: get_cities_def get_city_def put_city_def delete_city_def Let_def
      split: option.split)



lemma creations_Cons: "creations (r # rs) = (if is_creation r then 1 else 0) + creations rs"
  by (simp add: creations_def)








section \<open>Path segments\<close>

lemma digit_not_white: "is_radix_digit 10 c \<Longrightarrow> \<not> is_white c"
  by (auto simp: is_radix_digit_def digit_val_def is_white_def Let_def split: if_splits)

lemma digit_not_special:
  "is_radix_digit 10 c \<Longrightarrow> c \<noteq> CHR ''-'' \<and> c \<noteq> CHR ''+'' \<and> c \<noteq> CHR ''x'' \<and> c \<noteq> CHR ''X''"
  by (auto simp: is_radix_digit_def digit_val_def Let_def split: if_splits)

lemma sign_not_white: "\<not> is_white CHR ''+'' \<and> \<not> is_white CHR ''-''"
  by (simp add: is_white_def)

lemma zero_is_digit: "is_radix_digit 10 CHR ''0''"
  by (simp add: is_radix_digit_def digit_val_def)

lemma strip_prefix_decimal:
  "(\<And>b cs. S = CHR ''0'' # b # cs \<Longrightarrow> b \<noteq> CHR ''x'' \<and> b \<noteq> CHR ''X'') \<Longrightarrow> strip_prefix S = (10, S)"
  by (cases S rule: strip_prefix.cases) auto

lemma takeWhile_Nil_hd: "takeWhile P xs = [] \<longleftrightarrow> xs = [] \<or> \<not> P (hd xs)"
  by (cases xs) simp_all

lemma takeWhile_digits:
  assumes "\<forall>c\<in>set ds. P c" and "t = [] \<or> \<not> P (hd t)"
  shows "takeWhile P (ds @ t) = ds"
  using assms by (cases t) (simp_all add: takeWhile_tail)

lemma to_number_not_NaN: "to_number x \<noteq> NaN"
  by (simp add: to_number_def Let_def)

lemma to_number_exact:
  assumes "\<bar>x\<bar> < 2 ^ 53"
  shows "to_number x = Finite x"
proof -
  have "(2::int) ^ 53 \<le> 2 ^ 1024" by (rule power_increasing) simp_all
  with assms have b: "\<not> 2 ^ 1024 \<le> x" "\<not> x \<le> - (2 ^ 1024)" by linarith+
  from assms have "round_to_double x = x" by (simp only: round_to_double_def if_True)
  with b show ?thesis by (simp only: to_number_def Let_def if_False)
qed




text \<open>
  A segment read as white space \<open>ws\<close>, a sign \<open>sg\<close> (none, \<^verbatim>\<open>+\<close> or \<^verbatim>\<open>-\<close>) and the rest,
  where \<open>ws\<close> and \<open>sg\<close> are all the white space and sign there is to drop.
\<close>

lemma parseInt_shape:
  assumes ws: "\<forall>c\<in>set ws. is_white c"
    and sg: "sg = [] \<or> sg = ''+'' \<or> sg = ''-''"
    and mx: "sg = [] \<longrightarrow> S = [] \<or> (\<not> is_white (hd S) \<and> hd S \<noteq> CHR ''+'' \<and> hd S \<noteq> CHR ''-'')"
  shows "parseInt (ws @ sg @ S) =
     (if takeWhile (is_radix_digit (fst (strip_prefix S))) (snd (strip_prefix S)) = [] then NaN
      else to_number ((if sg = ''-'' then - 1 else 1)
             * math_int (fst (strip_prefix S))
                 (takeWhile (is_radix_digit (fst (strip_prefix S))) (snd (strip_prefix S)))))"
proof -
  have "dropWhile is_white (sg @ S) = sg @ S"
    using sg mx sign_not_white by (cases S) auto
  with ws have d: "dropWhile is_white (ws @ sg @ S) = sg @ S"
    by (simp add: dropWhile_append2)
  have s: "strip_sign (sg @ S) = (if sg = ''-'' then - 1 else 1, S)"
    using sg mx by (cases S) auto
  show ?thesis
    by (simp add: parseInt_def d s split_beta Let_def)
qed

lemma parseInt_NaN_iff:
  assumes "\<forall>c\<in>set ws. is_white c"
    and "sg = [] \<or> sg = ''+'' \<or> sg = ''-''"
    and "sg = [] \<longrightarrow> S = [] \<or> (\<not> is_white (hd S) \<and> hd S \<noteq> CHR ''+'' \<and> hd S \<noteq> CHR ''-'')"
  shows "parseInt (ws @ sg @ S) = NaN \<longleftrightarrow>
     (S = [] \<or> \<not> is_radix_digit 10 (hd S))
     \<or> (\<exists>r. (S = ''0x'' @ r \<or> S = ''0X'' @ r) \<and> (r = [] \<or> \<not> is_radix_digit 16 (hd r)))"
proof -
  have "parseInt (ws @ sg @ S) = NaN \<longleftrightarrow>
      takeWhile (is_radix_digit (fst (strip_prefix S))) (snd (strip_prefix S)) = []"
    by (simp add: parseInt_shape [OF assms] to_number_not_NaN)
  also have "\<dots> \<longleftrightarrow> (S = [] \<or> \<not> is_radix_digit 10 (hd S))
     \<or> (\<exists>r. (S = ''0x'' @ r \<or> S = ''0X'' @ r) \<and> (r = [] \<or> \<not> is_radix_digit 16 (hd r)))"
    using zero_is_digit by (cases S rule: strip_prefix.cases) (auto simp: takeWhile_Nil_hd)
  finally show ?thesis .
qed

text \<open>Every segment reads that way.\<close>

lemma segment_decomposes:
  "\<exists>ws sg S. ident = ws @ sg @ S \<and> (\<forall>c\<in>set ws. is_white c)
     \<and> (sg = [] \<or> sg = ''+'' \<or> sg = ''-'')
     \<and> (sg = [] \<longrightarrow> S = [] \<or> (\<not> is_white (hd S) \<and> hd S \<noteq> CHR ''+'' \<and> hd S \<noteq> CHR ''-''))"
proof -
  let ?ws = "takeWhile is_white ident" and ?S = "dropWhile is_white ident"
  have w: "\<forall>c\<in>set ?ws. is_white c" by (auto dest: set_takeWhileD)
  have i: "ident = ?ws @ ?S" by simp
  show ?thesis
  proof (cases ?S)
    case Nil
    with w i have "ident = ?ws @ [] @ []" by simp
    with w show ?thesis by blast
  next
    case (Cons c cs)
    then have nw: "\<not> is_white c" using hd_dropWhile [of is_white ident] by auto
    show ?thesis
    proof (cases "c = CHR ''+'' \<or> c = CHR ''-''")
      case True
      with Cons i have "ident = ?ws @ [c] @ cs" by simp
      with w True show ?thesis by blast
    next
      case False
      from Cons i have "ident = ?ws @ [] @ (c # cs)" by simp
      moreover from False nw
      have "\<not> is_white (hd (c # cs)) \<and> hd (c # cs) \<noteq> CHR ''+'' \<and> hd (c # cs) \<noteq> CHR ''-''"
        by simp
      ultimately show ?thesis using w by blast
    qed
  qed
qed

lemma parseInt_leading_digits:
  assumes ws: "\<forall>c\<in>set ws. is_white c"
    and sg: "sg = [] \<or> sg = ''+'' \<or> sg = ''-''"
    and ds: "ds \<noteq> []" "\<forall>c\<in>set ds. is_radix_digit 10 c"
    and t: "t = [] \<or> \<not> is_radix_digit 10 (hd t)"
    and hex: "\<not> (ds = ''0'' \<and> t \<noteq> [] \<and> (hd t = CHR ''x'' \<or> hd t = CHR ''X''))"
  shows "parseInt (ws @ sg @ ds @ t) = to_number ((if sg = ''-'' then - 1 else 1) * math_int 10 ds)"
proof -
  from ds obtain a ds' where a: "ds = a # ds'" "is_radix_digit 10 a"
    by (cases ds) auto
  have mx: "sg = [] \<longrightarrow> ds @ t = []
      \<or> (\<not> is_white (hd (ds @ t)) \<and> hd (ds @ t) \<noteq> CHR ''+'' \<and> hd (ds @ t) \<noteq> CHR ''-'')"
    using a digit_not_white [of a] digit_not_special [of a] by simp
  have p: "strip_prefix (ds @ t) = (10, ds @ t)"
  proof (rule strip_prefix_decimal)
    fix b cs assume e: "ds @ t = CHR ''0'' # b # cs"
    show "b \<noteq> CHR ''x'' \<and> b \<noteq> CHR ''X''"
    proof (cases ds')
      case Nil
      with e a hex show ?thesis by (cases t) auto
    next
      case (Cons a' ds'')
      with e a have "b = a'" by simp
      moreover from Cons a ds have "is_radix_digit 10 a'" by simp
      ultimately show ?thesis using digit_not_special by blast
    qed
  qed
  have z: "takeWhile (is_radix_digit 10) (ds @ t) = ds"
    using ds(2) t by (rule takeWhile_digits)
  show ?thesis
    by (simp add: parseInt_shape [OF ws sg mx] p z ds(1))
qed

lemma id_is_NaN: "\<not> id_is NaN c"
  by (simp add: id_is_def)


text \<open>
  Claim C9, amended. The path segment is parsed with \<^verbatim>\<open>parseInt\<close> and compared by value.
  Read the segment as leading white space, an optional sign and the rest. It parses to
  \<^verbatim>\<open>NaN\<close> exactly when the rest is empty or begins with a character that is not a
  decimal digit (\<^verbatim>\<open>abc\<close>, \<^verbatim>\<open>abc3\<close>, \<^verbatim>\<open>.3\<close>, \<^verbatim>\<open>--3\<close>), or is \<^verbatim>\<open>0x\<close> or \<^verbatim>\<open>0X\<close> with no
  hexadecimal digit after it. \<^verbatim>\<open>NaN\<close> is strictly equal to nothing, so for such a segment
  GET, PUT and DELETE find no record and answer with the ordinary 404, store unchanged:
  there is no separate parse error.
\<close>

theorem non_numeric_segment_not_found:
  assumes "\<forall>c\<in>set ws. is_white c"
    and "sg = [] \<or> sg = ''+'' \<or> sg = ''-''"
    and "sg = [] \<longrightarrow> rest = [] \<or> (\<not> is_white (hd rest) \<and> hd rest \<noteq> CHR ''+'' \<and> hd rest \<noteq> CHR ''-'')"
  shows "(parseInt (ws @ sg @ rest) = NaN \<longleftrightarrow>
           (rest = [] \<or> \<not> is_radix_digit 10 (hd rest))
           \<or> (\<exists>r. (rest = ''0x'' @ r \<or> rest = ''0X'' @ r) \<and> (r = [] \<or> \<not> is_radix_digit 16 (hd r))))
       \<and> ((rest = [] \<or> \<not> is_radix_digit 10 (hd rest))
           \<or> (\<exists>r. (rest = ''0x'' @ r \<or> rest = ''0X'' @ r) \<and> (r = [] \<or> \<not> is_radix_digit 16 (hd r)))
          \<longrightarrow>
            get_city (ws @ sg @ rest) st
              = (Response 404 (Some (Obj [(''message'', Str ''City not found'')])), st)
          \<and> put_city (ws @ sg @ rest) reqbody st
              = (Response 404 (Some (Obj [(''message'', Str ''City not found'')])), st)
          \<and> delete_city (ws @ sg @ rest) st
              = (Response 404 (Some (Obj [(''message'', Str ''City not found'')])), st))"
proof (intro conjI impI)
  show "parseInt (ws @ sg @ rest) = NaN \<longleftrightarrow>
           (rest = [] \<or> \<not> is_radix_digit 10 (hd rest))
           \<or> (\<exists>r. (rest = ''0x'' @ r \<or> rest = ''0X'' @ r) \<and> (r = [] \<or> \<not> is_radix_digit 16 (hd r)))"
    using assms by (rule parseInt_NaN_iff)
next
  assume "(rest = [] \<or> \<not> is_radix_digit 10 (hd rest))
           \<or> (\<exists>r. (rest = ''0x'' @ r \<or> rest = ''0X'' @ r) \<and> (r = [] \<or> \<not> is_radix_digit 16 (hd r)))"
  with parseInt_NaN_iff [OF assms] have n: "parseInt (ws @ sg @ rest) = NaN"
    by (rule iffD2)
  have f: "find (id_is NaN) (cities st) = None"
    by (simp add: find_None_iff id_is_NaN)
  have g: "findIndex (id_is NaN) (cities st) = None"
    by (simp add: findIndex_None_iff id_is_NaN)
  show "get_city (ws @ sg @ rest) st
      = (Response 404 (Some (Obj [(''message'', Str ''City not found'')])), st)"
    by (simp only: get_city_def n f not_found_def option.case)
  show "put_city (ws @ sg @ rest) reqbody st
      = (Response 404 (Some (Obj [(''message'', Str ''City not found'')])), st)"
    by (simp only: put_city_def n g not_found_def option.case)
  show "delete_city (ws @ sg @ rest) st
      = (Response 404 (Some (Obj [(''message'', Str ''City not found'')])), st)"
    by (simp only: delete_city_def n g not_found_def option.case)
qed

theorem non_numeric_segment_not_found_witness:
  "parseInt ''abc3'' = NaN
   \<and> get_city ''abc3'' \<lparr>cities = [[(''id'', Num 3), (''name'', Str ''Addis Ababa'')]], nextId = 4\<rparr>
     = (Response 404 (Some (Obj [(''message'', Str ''City not found'')])),
        \<lparr>cities = [[(''id'', Num 3), (''name'', Str ''Addis Ababa'')]], nextId = 4\<rparr>)
   \<and> put_city ''abc3'' (Obj [(''name'', Str ''Adama'')])
        \<lparr>cities = [[(''id'', Num 3), (''name'', Str ''Addis Ababa'')]], nextId = 4\<rparr>
     = (Response 404 (Some (Obj [(''message'', Str ''City not found'')])),
        \<lparr>cities = [[(''id'', Num 3), (''name'', Str ''Addis Ababa'')]], nextId = 4\<rparr>)
   \<and> delete_city ''abc3'' \<lparr>cities = [[(''id'', Num 3), (''name'', Str ''Addis Ababa'')]], nextId = 4\<rparr>
     = (Response 404 (Some (Obj [(''message'', Str ''City not found'')])),
        \<lparr>cities = [[(''id'', Num 3), (''name'', Str ''Addis Ababa'')]], nextId = 4\<rparr>)"
proof -
  have h1: "\<forall>c\<in>set ''''. is_white c" by simp
  have h2: "'''' = [] \<or> '''' = ''+'' \<or> '''' = ''-''" by simp
  have h3: "'''' = [] \<longrightarrow> ''abc3'' = []
      \<or> (\<not> is_white (hd ''abc3'') \<and> hd ''abc3'' \<noteq> CHR ''+'' \<and> hd ''abc3'' \<noteq> CHR ''-'')"
    by (simp add: is_white_def)
  have h4: "\<not> is_radix_digit 10 (hd ''abc3'')" by code_simp
  note t = non_numeric_segment_not_found [OF h1 h2 h3,
      where st = "\<lparr>cities = [[(''id'', Num 3), (''name'', Str ''Addis Ababa'')]], nextId = 4\<rparr>"
        and reqbody = "Obj [(''name'', Str ''Adama'')]", unfolded append_Nil]
  from t h4 have n: "parseInt ''abc3'' = NaN" by blast
  with t show ?thesis by blast
qed

text \<open>
  The claim as written, for every segment that is not numeric, fails for a segment that
  is not a number but begins with one: \<^verbatim>\<open>3rd\<close> parses to 3, and GET, PUT and DELETE on
  \<^verbatim>\<open>/cities/3rd\<close> find the record with id 3.
\<close>

theorem non_numeric_segment_counterexample:
  "parseInt ''3rd'' = Finite 3
   \<and> get_city ''3rd'' \<lparr>cities = [[(''id'', Num 3), (''name'', Str ''Addis Ababa'')]], nextId = 4\<rparr>
     = (Response 200 (Some (Obj [(''id'', Num 3), (''name'', Str ''Addis Ababa'')])),
        \<lparr>cities = [[(''id'', Num 3), (''name'', Str ''Addis Ababa'')]], nextId = 4\<rparr>)
   \<and> put_city ''3rd'' (Obj [(''name'', Str ''Adama'')])
        \<lparr>cities = [[(''id'', Num 3), (''name'', Str ''Addis Ababa'')]], nextId = 4\<rparr>
     = (Response 200 (Some (Obj [(''id'', Num 3), (''name'', Str ''Adama'')])),
        \<lparr>cities = [[(''id'', Num 3), (''name'', Str ''Adama'')]], nextId = 4\<rparr>)
   \<and> delete_city ''3rd'' \<lparr>cities = [[(''id'', Num 3), (''name'', Str ''Addis Ababa'')]], nextId = 4\<rparr>
     = (Response 204 None, \<lparr>cities = [], nextId = 4\<rparr>)"
  by code_simp




section \<open>Listing, appending and removing\<close>

text \<open>
  The list operation returns the array as it is stored; a creation appends its record at
  the end, and an update replaces a record where it stands, so the stored order is the
  order of insertion. A deletion that finds a record with the requested id removes the
  first such record and nothing else: the array splits as \<open>xs @ y # ys\<close> around it and
  \<open>xs @ ys\<close> is what is left.
\<close>

lemma list_and_delete_first_match:
  "get_cities st = (Response 200 (Some (Arr (map Obj (cities st)))), st)
   \<and> (\<exists>c. post_city reqbody st
          = (Response 201 (Some (Obj c)), \<lparr>cities = cities st @ [c], nextId = round_to_double (nextId st + 1)\<rparr>))
   \<and> (\<forall>i. findIndex (id_is (parseInt ident)) (cities st) = Some i \<longrightarrow>
          (\<exists>c. cities (snd (put_city ident reqbody st)) = (cities st)[i := c]))
   \<and> (c \<in> set (cities st) \<and> id_is (parseInt ident) c \<longrightarrow>
        (\<exists>xs y ys. cities st = xs @ y # ys \<and> id_is (parseInt ident) y
           \<and> (\<forall>x\<in>set xs. \<not> id_is (parseInt ident) x)
           \<and> delete_city ident st = (Response 204 None, st\<lparr>cities := xs @ ys\<rparr>)))"
proof (intro conjI allI impI)
  show "get_cities st = (Response 200 (Some (Arr (map Obj (cities st)))), st)"
    by (simp add: get_cities_def)
  show "\<exists>c. post_city reqbody st
          = (Response 201 (Some (Obj c)), \<lparr>cities = cities st @ [c], nextId = round_to_double (nextId st + 1)\<rparr>)"
    by (simp add: post_city_def Let_def)
next
  fix i assume "findIndex (id_is (parseInt ident)) (cities st) = Some i"
  then show "\<exists>c. cities (snd (put_city ident reqbody st)) = (cities st)[i := c]"
    by (auto simp: put_city_def Let_def)
next
  assume "c \<in> set (cities st) \<and> id_is (parseInt ident) c"
  then obtain i where i: "findIndex (id_is (parseInt ident)) (cities st) = Some i"
    using findIndex_Some_ex by fastforce
  note d = findIndex_SomeD [OF i]
  from d have sp: "cities st = take i (cities st) @ cities st ! i # drop (Suc i) (cities st)"
    "splice1 i (cities st) = take i (cities st) @ drop (Suc i) (cities st)"
    using splice1_split by blast+
  have "delete_city ident st
      = (Response 204 None, st\<lparr>cities := take i (cities st) @ drop (Suc i) (cities st)\<rparr>)"
    by (simp add: delete_city_def i sp(2))
  with sp(1) d show "\<exists>xs y ys. cities st = xs @ y # ys \<and> id_is (parseInt ident) y
           \<and> (\<forall>x\<in>set xs. \<not> id_is (parseInt ident) x)
           \<and> delete_city ident st = (Response 204 None, st\<lparr>cities := xs @ ys\<rparr>)"
    by blast
qed

lemma id_is_same_id: "id_is n y \<Longrightarrow> id_is n c \<Longrightarrow> get_prop y ''id'' = get_prop c ''id''"
  by (cases n) (auto simp: id_is_def split: jsval.splits)

text \<open>Where no two records have the same \<^verbatim>\<open>id\<close>, the record removed is the one addressed.\<close>

lemma delete_removes_addressed_record:
  assumes "distinct (map (\<lambda>c. get_prop c ''id'') (cities st))"
    and "c \<in> set (cities st)" and "id_is (parseInt ident) c"
  shows "\<exists>xs ys. cities st = xs @ c # ys
           \<and> delete_city ident st = (Response 204 None, st\<lparr>cities := xs @ ys\<rparr>)"
proof -
  from assms(2,3) obtain i where i: "findIndex (id_is (parseInt ident)) (cities st) = Some i"
    using findIndex_Some_ex by fastforce
  note d = findIndex_SomeD [OF i]
  from d have l: "i < length (cities st)" and y: "id_is (parseInt ident) (cities st ! i)"
    by simp_all
  from y assms(3) have "get_prop (cities st ! i) ''id'' = get_prop c ''id''"
    by (rule id_is_same_id)
  moreover from assms(1) have "inj_on (\<lambda>c. get_prop c ''id'') (set (cities st))"
    by (simp add: distinct_map)
  moreover from l have "cities st ! i \<in> set (cities st)" by simp
  ultimately have e: "cities st ! i = c"
    using assms(2) by (auto dest: inj_onD)
  from splice1_split [OF l] e
  have "cities st = take i (cities st) @ c # drop (Suc i) (cities st)"
    and "splice1 i (cities st) = take i (cities st) @ drop (Suc i) (cities st)" by simp_all
  moreover have "delete_city ident st = (Response 204 None, st\<lparr>cities := splice1 i (cities st)\<rparr>)"
    by (simp add: delete_city_def i)
  ultimately show ?thesis by metis
qed

text \<open>
  Claim C8 (deleting a stored record by its id removes that one record and leaves every
  other record in place) does not hold of the handler once two records share an id,
  which a creation whose body carries an \<^verbatim>\<open>id\<close> brings about: after
  \<^verbatim>\<open>POST {"name":"A"}\<close> and \<^verbatim>\<open>POST {"id":3,"name":"B"}\<close> both records have id 3, and
  \<^verbatim>\<open>DELETE /cities/3\<close>, the only way to delete B by its id, removes A and leaves B.
\<close>

theorem delete_by_id_removes_other_record:
  "run [PostCity (Obj [(''name'', Str ''A'')]),
        PostCity (Obj [(''id'', Num 3), (''name'', Str ''B'')])] init_store
     = \<lparr>cities = [[(''id'', Num 3), (''name'', Str ''A'')],
                  [(''id'', Num 3), (''name'', Str ''B'')]], nextId = 5\<rparr>
   \<and> get_prop [(''id'', Num 3), (''name'', Str ''B'')] ''id'' = Num 3
   \<and> delete_city ''3'' \<lparr>cities = [[(''id'', Num 3), (''name'', Str ''A'')],
                  [(''id'', Num 3), (''name'', Str ''B'')]], nextId = 5\<rparr>
     = (Response 204 None, \<lparr>cities = [[(''id'', Num 3), (''name'', Str ''B'')]], nextId = 5\<rparr>)
   \<and> get_cities \<lparr>cities = [[(''id'', Num 3), (''name'', Str ''B'')]], nextId = 5\<rparr>
     = (Response 200 (Some (Arr [Obj [(''id'', Num 3), (''name'', Str ''B'')]])),
        \<lparr>cities = [[(''id'', Num 3), (''name'', Str ''B'')]], nextId = 5\<rparr>)"
  by code_simp

section \<open>Updates\<close>

text \<open>
  A PUT whose segment matches a stored record replaces that record, where it stands, by
  a record whose fields other than \<^verbatim>\<open>id\<close> are exactly those of the body: a field the
  record had before and the body does not name is gone. When the body has no \<^verbatim>\<open>id\<close>
  field, the record's \<^verbatim>\<open>id\<close> is the one it had. The body's own property list names each
  key once, as every parsed JSON value's does.
\<close>

lemma put_replaces_fields:
  assumes "findIndex (id_is (parseInt ident)) (cities st) = Some i"
    and "distinct (map fst (own_props reqbody))"
  shows "\<exists>c. put_city ident reqbody st
            = (Response 200 (Some (Obj c)), st\<lparr>cities := (cities st)[i := c]\<rparr>)
          \<and> (\<forall>k. k \<noteq> ''id'' \<longrightarrow> map_of c k = map_of (own_props reqbody) k)
          \<and> (map_of (own_props reqbody) ''id'' = None \<longrightarrow>
                map_of c ''id'' = Some (get_prop (cities st ! i) ''id''))"
proof (intro exI conjI)
  let ?c = "spread reqbody [(''id'', get_prop (cities st ! i) ''id'')]"
  from findIndex_SomeD [OF assms(1)] have i: "i < length (cities st)" by simp
  show "put_city ident reqbody st
      = (Response 200 (Some (Obj ?c)), st\<lparr>cities := (cities st)[i := ?c]\<rparr>)"
    by (simp add: put_city_def assms(1) Let_def i)
  show "\<forall>k. k \<noteq> ''id'' \<longrightarrow> map_of ?c k = map_of (own_props reqbody) k"
    by (simp add: spread_id_field [OF assms(2)] split: option.split)
  show "map_of (own_props reqbody) ''id'' = None \<longrightarrow>
      map_of ?c ''id'' = Some (get_prop (cities st ! i) ''id'')"
    by (simp add: spread_id_field [OF assms(2)])
qed

text \<open>
  Claim C4 (the updated record is the original \<^verbatim>\<open>id\<close> plus the fields of the body) does
  not hold of the handler for a body that has an \<^verbatim>\<open>id\<close> field: the handler copies the
  original \<^verbatim>\<open>id\<close> in first and the spread of the body then overwrites it. \<^verbatim>\<open>PUT /cities/3\<close>
  with the body \<^verbatim>\<open>{"id":9,"name":"B"}\<close> drops \<^verbatim>\<open>population\<close>, as the claim says, and
  leaves the record with id 9, not 3.
\<close>

theorem put_full_replace_loses_id:
  "put_city ''3'' (Obj [(''id'', Num 9), (''name'', Str ''B'')])
      \<lparr>cities = [[(''id'', Num 3), (''name'', Str ''A''), (''population'', Num 10)]], nextId = 4\<rparr>
     = (Response 200 (Some (Obj [(''id'', Num 9), (''name'', Str ''B'')])),
        \<lparr>cities = [[(''id'', Num 9), (''name'', Str ''B'')]], nextId = 4\<rparr>)
   \<and> get_prop [(''id'', Num 9), (''name'', Str ''B'')] ''id''
       \<noteq> get_prop [(''id'', Num 3), (''name'', Str ''A''), (''population'', Num 10)] ''id''"
  by code_simp

section \<open>Bodies that carry an \<^verbatim>\<open>id\<close> field\<close>

text \<open>
  Claim C1 (the server-assigned id wins over an \<^verbatim>\<open>id\<close> in the creation body) does not
  hold of the handler: the spread copies the body's \<^verbatim>\<open>id\<close> over the one just assigned.
  On the empty initial store, whose counter is 3, the body
  \<^verbatim>\<open>{"id":99,"name":"A"}\<close> is stored and returned with id 99.
\<close>

theorem post_body_id_overrides:
  "post_city (Obj [(''id'', Num 99), (''name'', Str ''A'')]) init_store
     = (Response 201 (Some (Obj [(''id'', Num 99), (''name'', Str ''A'')])),
        \<lparr>cities = [[(''id'', Num 99), (''name'', Str ''A'')]], nextId = 4\<rparr>)"
  by code_simp

text \<open>
  Claim C2 (a record's id is the same after a PUT, whatever the body) does not hold of
  the handler for the same reason: \<^verbatim>\<open>PUT /cities/3\<close> with the body
  \<^verbatim>\<open>{"name":"B","id":7}\<close> leaves the record with id 7.
\<close>

theorem put_body_id_overrides:
  "put_city ''3'' (Obj [(''name'', Str ''B''), (''id'', Num 7)])
      \<lparr>cities = [[(''id'', Num 3), (''name'', Str ''A'')]], nextId = 4\<rparr>
     = (Response 200 (Some (Obj [(''id'', Num 7), (''name'', Str ''B'')])),
        \<lparr>cities = [[(''id'', Num 7), (''name'', Str ''B'')]], nextId = 4\<rparr>)"
  by code_simp

text \<open>
  Claim C3 (in every reachable store each record has a non-null id and no two records
  share one) does not hold either: three creations from the initial store, the second
  with \<^verbatim>\<open>id: 3\<close> and the third with \<^verbatim>\<open>id: null\<close> in the body, leave two records with id
  3 and one with id \<^verbatim>\<open>null\<close>.
\<close>

theorem reachable_duplicate_and_null_id:
  "run [PostCity (Obj [(''name'', Str ''A'')]),
        PostCity (Obj [(''id'', Num 3), (''name'', Str ''B'')]),
        PostCity (Obj [(''id'', Null), (''name'', Str ''C'')])] init_store
     = \<lparr>cities = [[(''id'', Num 3), (''name'', Str ''A'')],
                  [(''id'', Num 3), (''name'', Str ''B'')],
                  [(''id'', Null), (''name'', Str ''C'')]], nextId = 6\<rparr>"
  by code_simp

text \<open>
  Claim C5 (POST of a payload without \<^verbatim>\<open>id\<close>, then GET of the returned id, gives the
  payload plus the id) fails once an earlier creation has planted the id the counter
  reaches next: GET returns the first record with that id, which is the earlier one.
\<close>

theorem round_trip_shadowed:
  "run [PostCity (Obj [(''id'', Num 4), (''name'', Str ''X'')])] init_store
     = \<lparr>cities = [[(''id'', Num 4), (''name'', Str ''X'')]], nextId = 4\<rparr>
   \<and> post_city (Obj [(''name'', Str ''B'')])
        \<lparr>cities = [[(''id'', Num 4), (''name'', Str ''X'')]], nextId = 4\<rparr>
     = (Response 201 (Some (Obj [(''id'', Num 4), (''name'', Str ''B'')])),
        \<lparr>cities = [[(''id'', Num 4), (''name'', Str ''X'')],
                     [(''id'', Num 4), (''name'', Str ''B'')]], nextId = 5\<rparr>)
   \<and> get_city ''4'' \<lparr>cities = [[(''id'', Num 4), (''name'', Str ''X'')],
                     [(''id'', Num 4), (''name'', Str ''B'')]], nextId = 5\<rparr>
     = (Response 200 (Some (Obj [(''id'', Num 4), (''name'', Str ''X'')])),
        \<lparr>cities = [[(''id'', Num 4), (''name'', Str ''X'')],
                     [(''id'', Num 4), (''name'', Str ''B'')]], nextId = 5\<rparr>)"
  by code_simp

section \<open>Decimal strings parse back\<close>

lemma of_char_digit_char: "d < 10 \<Longrightarrow> (of_char (digit_char d) :: int) = 48 + int d"
proof -
  assume d: "d < 10"
  have "(of_char (digit_char d) :: int) = int (of_char (digit_char d))"
    by (simp only: of_nat_of_char)
  also have "\<dots> = int ((48 + d) mod 256)"
    by (simp only: digit_char_def of_char_of)
  also from d have "\<dots> = 48 + int d" by simp
  finally show ?thesis .
qed

lemma digit_val_digit_char: "d < 10 \<Longrightarrow> digit_val (digit_char d) = Some (int d)"
  by (simp add: digit_val_def of_char_digit_char)

lemma is_digit_digit_char: "d < 10 \<Longrightarrow> is_radix_digit 10 (digit_char d)"
  by (simp add: is_radix_digit_def digit_val_digit_char)

lemma show_nat_digits: "show_nat n \<noteq> [] \<and> (\<forall>c\<in>set (show_nat n). is_radix_digit 10 c)"
proof (induction n rule: show_nat.induct)
  case (1 n)
  show ?case
  proof (cases "n < 10")
    case True
    then show ?thesis
      by (subst (1 2) show_nat.simps) (simp add: is_digit_digit_char)
  next
    case False
    with 1 show ?thesis
      by (subst (1 2) show_nat.simps) (simp add: is_digit_digit_char)
  qed
qed

lemma math_int_snoc:
  "math_int R (Z @ [c]) = math_int R Z * R + (case digit_val c of Some d \<Rightarrow> d | None \<Rightarrow> 0)"
  by (simp add: math_int_def)

lemma math_int_show_nat: "math_int 10 (show_nat n) = int n"
proof (induction n rule: show_nat.induct)
  case (1 n)
  show ?case
  proof (cases "n < 10")
    case True
    then show ?thesis
      by (subst show_nat.simps) (simp add: math_int_def digit_val_digit_char)
  next
    case False
    then have "math_int 10 (show_nat n) = math_int 10 (show_nat (n div 10)) * 10 + int (n mod 10)"
      by (subst show_nat.simps) (simp add: math_int_snoc digit_val_digit_char)
    also from False 1 have "\<dots> = int (n div 10) * 10 + int (n mod 10)" by simp
    also have "\<dots> = int n"
      by (simp add: zdiv_int zmod_int) 
    finally show ?thesis .
  qed
qed

lemma parseInt_show_nat:
  assumes "int n < 2 ^ 53"
  shows "parseInt (show_nat n) = Finite (int n)"
proof -
  have "parseInt ([] @ [] @ show_nat n @ []) = to_number ((if [] = ''-'' then - 1 else 1) * math_int 10 (show_nat n))"
    using show_nat_digits [of n] by (intro parseInt_leading_digits) simp_all
  then have "parseInt (show_nat n) = to_number (int n)"
    by (simp add: math_int_show_nat)
  also from assms have "\<dots> = Finite (int n)"
    by (intro to_number_exact) simp
  finally show ?thesis .
qed

section \<open>Plain bodies\<close>

text \<open>
  What the handlers do when no body has an \<^verbatim>\<open>id\<close> field and the counter stays below
  \<open>2^53\<close>: the new record's \<^verbatim>\<open>id\<close> is the counter's value, an update keeps the record's
  \<^verbatim>\<open>id\<close>, every store reached from the initial one has server ids, and a creation
  followed by a GET of the assigned id, written in decimal, returns the record just
  created.
\<close>

lemma below_counter_mono: "below_counter n c \<Longrightarrow> n \<le> m \<Longrightarrow> below_counter m c"
  by (auto simp: below_counter_def split: jsval.splits)

lemma below_counter_not_next: "below_counter n c \<Longrightarrow> \<not> id_is (Finite n) c"
  by (auto simp: below_counter_def id_is_def split: jsval.splits)

lemma below_counter_id_neq: "below_counter n c \<Longrightarrow> get_prop c ''id'' \<noteq> Num (of_int n)"
  by (auto simp: below_counter_def split: jsval.splits)

lemma server_ids_init: "server_ids init_store"
  by (simp add: server_ids_def init_store_def)

lemma server_ids_post:
  assumes "server_ids st" and "plain_body b" and "- (2 ^ 53) \<le> nextId st" and "nextId st < 2 ^ 53"
  shows "server_ids (snd (post_city b st))"
proof -
  let ?c = "spread b [(''id'', Num (of_int (nextId st)))]"
  from assms(3,4) have "\<bar>nextId st + 1\<bar> \<le> 2 ^ 53" by linarith
  then have n: "round_to_double (nextId st + 1) = nextId st + 1"
    by (rule round_to_double_exact)
  have i: "get_prop ?c ''id'' = Num (of_int (nextId st))"
    using assms(2) by (rule plain_spread_id)
  from assms(1) have d: "distinct (map (\<lambda>c. get_prop c ''id'') (cities st))"
    and b: "list_all (below_counter (nextId st)) (cities st)"
    by (simp_all add: server_ids_def)
  from b have "Num (of_int (nextId st)) \<notin> set (map (\<lambda>c. get_prop c ''id'') (cities st))"
    using below_counter_id_neq [of "nextId st"] by (fastforce simp: list_all_iff)
  with d i have "distinct (map (\<lambda>c. get_prop c ''id'') (cities st @ [?c]))"
    by simp
  moreover from b have "list_all (below_counter (nextId st + 1)) (cities st)"
    using below_counter_mono [of "nextId st" _ "nextId st + 1"] by (simp add: list_all_iff)
  moreover have "below_counter (nextId st + 1) ?c"
    by (simp add: below_counter_def i)
  ultimately show ?thesis
    by (simp add: server_ids_def post_city_def Let_def n)
qed

lemma server_ids_put:
  assumes "server_ids st" and "plain_body b"
  shows "server_ids (snd (put_city ident b st))"
proof (cases "findIndex (id_is (parseInt ident)) (cities st)")
  case None
  with assms(1) show ?thesis by (simp add: put_city_def)
next
  case (Some i)
  let ?c = "spread b [(''id'', get_prop (cities st ! i) ''id'')]"
  from findIndex_SomeD [OF Some] have l: "i < length (cities st)" by simp
  have i: "get_prop ?c ''id'' = get_prop (cities st ! i) ''id''"
    using assms(2) by (rule plain_spread_id)
  have m: "map (\<lambda>c. get_prop c ''id'') ((cities st)[i := ?c]) = map (\<lambda>c. get_prop c ''id'') (cities st)"
    using l by (simp add: map_update i list_update_same_conv)
  from assms(1) l have "below_counter (nextId st) (cities st ! i)"
    by (simp add: server_ids_def list_all_length)
  then have "below_counter (nextId st) ?c"
    by (simp add: below_counter_def i)
  with assms(1) have "list_all (below_counter (nextId st)) ((cities st)[i := ?c])"
    using set_update_subset_insert [of "cities st" i ?c] by (auto simp: server_ids_def list_all_iff)
  with assms(1) m show ?thesis
    by (simp add: server_ids_def put_city_def Some Let_def)
qed

lemma server_ids_delete:
  assumes "server_ids st"
  shows "server_ids (snd (delete_city ident st))"
proof (cases "findIndex (id_is (parseInt ident)) (cities st)")
  case None
  with assms show ?thesis by (simp add: delete_city_def)
next
  case (Some i)
  from findIndex_SomeD [OF Some] have l: "i < length (cities st)" by simp
  note sp = splice1_split [OF l]
  from assms have "distinct (map (\<lambda>c. get_prop c ''id'') (take i (cities st) @ cities st ! i # drop (Suc i) (cities st)))"
    and "list_all (below_counter (nextId st)) (take i (cities st) @ cities st ! i # drop (Suc i) (cities st))"
    using sp by (simp_all add: server_ids_def)
  then have "distinct (map (\<lambda>c. get_prop c ''id'') (take i (cities st) @ drop (Suc i) (cities st)))"
    and "list_all (below_counter (nextId st)) (take i (cities st) @ drop (Suc i) (cities st))"
    by auto
  then show ?thesis
    using sp by (simp add: server_ids_def delete_city_def Some)
qed

lemma server_ids_other:
  "server_ids st \<Longrightarrow> plain_request r \<Longrightarrow> \<not> is_creation r \<Longrightarrow> server_ids (snd (handle r st))"
  by (cases r)
    (simp_all add: server_ids_put server_ids_delete get_cities_def get_city_def
      split: option.split)

lemma server_ids_run:
  assumes "server_ids st" and "list_all plain_request rs"
    and "- (2 ^ 53) \<le> nextId st" and "nextId st + int (creations rs) \<le> 2 ^ 53"
  shows "server_ids (run rs st)"
  using assms
proof (induction rs arbitrary: st)
  case Nil
  then show ?case by simp
next
  case (Cons r rs)
  show ?case
  proof (cases "is_creation r")
    case False
    with Cons.prems have "server_ids (snd (handle r st))"
      by (simp add: server_ids_other)
    moreover from False have "nextId (snd (handle r st)) = nextId st"
      by (rule nextId_other)
    moreover from False have "creations (r # rs) = creations rs"
      by (simp add: creations_Cons)
    ultimately show ?thesis
      using Cons.IH [of "snd (handle r st)"] Cons.prems by simp
  next
    case True
    then obtain reqbody where r: "r = PostCity reqbody" by (cases r) simp_all
    have c: "creations (r # rs) = Suc (creations rs)"
      by (simp add: creations_Cons r)
    from Cons.prems c have b: "- (2 ^ 53) \<le> nextId st" "nextId st < 2 ^ 53" by simp_all
    then have "\<bar>nextId st + 1\<bar> \<le> 2 ^ 53" by linarith
    then have n: "nextId (snd (post_city reqbody st)) = nextId st + 1"
      by (simp add: nextId_post round_to_double_exact)
    from Cons.prems r b have "server_ids (snd (post_city reqbody st))"
      by (simp add: server_ids_post)
    with Cons.IH [of "snd (post_city reqbody st)"] Cons.prems c n show ?thesis
      by (simp add: r)
  qed
qed

lemma plain_runs_have_server_ids:
  "list_all plain_request rs \<Longrightarrow> 3 + int (creations rs) \<le> 2 ^ 53 \<Longrightarrow>
     server_ids (run rs init_store)"
  using server_ids_init by (rule server_ids_run) (simp_all add: init_store_def)

lemma find_last_only:
  "\<forall>x\<in>set xs. \<not> P x \<Longrightarrow> P c \<Longrightarrow> find P (xs @ [c]) = Some c"
  by (induction xs) simp_all

lemma post_then_get_plain:
  assumes "plain_body P" and "\<forall>c\<in>set (cities st). \<not> id_is (Finite (nextId st)) c"
    and "0 \<le> nextId st" and "nextId st < 2 ^ 53"
  shows "\<exists>c. fst (post_city P st) = Response 201 (Some (Obj c))
           \<and> map_of c = (map_of (own_props P))(''id'' \<mapsto> Num (of_int (nextId st)))
           \<and> get_city (show_nat (nat (nextId st))) (snd (post_city P st))
               = (Response 200 (Some (Obj c)), snd (post_city P st))"
proof (intro exI conjI)
  let ?c = "spread P [(''id'', Num (of_int (nextId st)))]"
  show "fst (post_city P st) = Response 201 (Some (Obj ?c))"
    by (simp add: post_city_def Let_def)
  show "map_of ?c = (map_of (own_props P))(''id'' \<mapsto> Num (of_int (nextId st)))"
    using assms(1) by (rule plain_spread)
  have p: "parseInt (show_nat (nat (nextId st))) = Finite (nextId st)"
    using assms(3,4) parseInt_show_nat [of "nat (nextId st)"] by simp
  have "id_is (Finite (nextId st)) ?c"
    by (simp add: id_is_def plain_spread_id [OF assms(1)])
  with assms(2) have "find (id_is (Finite (nextId st))) (cities st @ [?c]) = Some ?c"
    by (rule find_last_only)
  then show "get_city (show_nat (nat (nextId st))) (snd (post_city P st))
               = (Response 200 (Some (Obj ?c)), snd (post_city P st))"
    by (simp add: get_city_def p post_city_def Let_def)
qed

lemma server_ids_round_trip_premise:
  "server_ids st \<Longrightarrow> \<forall>c\<in>set (cities st). \<not> id_is (Finite (nextId st)) c"
  by (simp add: server_ids_def list_all_iff below_counter_not_next)

end
